theory Spec2Isabelle
  imports Main
begin

section \<open>Python values, dictionaries and exceptions\<close>

text \<open>
  The detections returned by \<^verbatim>\<open>DeepFace.analyze\<close> are \<^verbatim>\<open>Dict[str, Any]\<close>. The loop reads
  two keys with \<^verbatim>\<open>.get\<close>, tests their truth value, subscripts the region and calls
  \<^verbatim>\<open>.capitalize()\<close> on the label. The values that matter for these operations are
  \<^verbatim>\<open>None\<close>, integers, strings and dictionaries; \<open>PyOther b\<close> stands for an object of any
  other type (a float, a list, ...) of which only the truth value \<open>b\<close> is known: it is
  not subscriptable by a string, has no \<^verbatim>\<open>capitalize\<close> and is not a pixel coordinate.
\<close>

datatype pyval =
    PyNone
  | PyInt int
  | PyStr string
  | PyDict "(string \<times> pyval) list"
  | PyOther bool

datatype py_error =
    AttributeError
  | KeyError string
  | TypeError
  | ZeroDivisionError

type_synonym face = "(string \<times> pyval) list"

text \<open>\<^verbatim>\<open>d.get(k)\<close>: the value stored under \<open>k\<close>, \<^verbatim>\<open>None\<close> when the key is absent.\<close>

definition dict_get :: "(string \<times> pyval) list \<Rightarrow> string \<Rightarrow> pyval" where
  "dict_get d k = (case map_of d k of None \<Rightarrow> PyNone | Some v \<Rightarrow> v)"

text \<open>Python's truth value, as \<^verbatim>\<open>not v\<close> tests it.\<close>

fun truthy :: "pyval \<Rightarrow> bool" where
  "truthy PyNone = False"
| "truthy (PyInt n) = (n \<noteq> 0)"
| "truthy (PyStr s) = (s \<noteq> [])"
| "truthy (PyDict d) = (d \<noteq> [])"
| "truthy (PyOther b) = b"

text \<open>\<^verbatim>\<open>v[k]\<close> for a string key: KeyError on a dictionary without the key, TypeError on
  anything that is not a dictionary.\<close>

fun subscript :: "pyval \<Rightarrow> string \<Rightarrow> py_error + pyval" where
  "subscript (PyDict d) k = (case map_of d k of None \<Rightarrow> Inl (KeyError k) | Some v \<Rightarrow> Inr v)"
| "subscript _ k = Inl TypeError"

text \<open>\<^verbatim>\<open>str.capitalize()\<close> on ASCII text: first character upper case, the rest lower case.
  Bytes outside \<^verbatim>\<open>a-z\<close>/\<^verbatim>\<open>A-Z\<close> are left alone.\<close>

definition upper_char :: "char \<Rightarrow> char" where
  "upper_char c =
     (let n = (of_char c :: nat) in if 97 \<le> n \<and> n \<le> 122 then char_of (n - 32) else c)"

definition lower_char :: "char \<Rightarrow> char" where
  "lower_char c =
     (let n = (of_char c :: nat) in if 65 \<le> n \<and> n \<le> 90 then char_of (n + 32) else c)"

fun capitalize :: "string \<Rightarrow> string" where
  "capitalize [] = []"
| "capitalize (c # cs) = upper_char c # map lower_char cs"

text \<open>\<^verbatim>\<open>emotion_raw.capitalize()\<close>: only a string has the method.\<close>

fun call_capitalize :: "pyval \<Rightarrow> py_error + string" where
  "call_capitalize (PyStr s) = Inr (capitalize s)"
| "call_capitalize _ = Inl AttributeError"

text \<open>A value used as a pixel coordinate in \<^verbatim>\<open>x + w\<close> and in the cv2 drawing calls: anything
  but an integer ends in an exception (TypeError of \<^verbatim>\<open>+\<close>, or the argument parser of cv2);
  the model does not tell the two apart.\<close>

fun as_int :: "pyval \<Rightarrow> py_error + int" where
  "as_int (PyInt n) = Inr n"
| "as_int _ = Inl TypeError"

text \<open>\<^verbatim>\<open>str(n)\<close> for an integer, used by the f-string of \<^verbatim>\<open>initialize_camera\<close>.\<close>

definition digit_char :: "nat \<Rightarrow> char" where
  "digit_char d = char_of (48 + d)"

fun str_nat :: "nat \<Rightarrow> string" where
  "str_nat n = (if n < 10 then [digit_char n] else str_nat (n div 10) @ [digit_char (n mod 10)])"

definition str_int :: "int \<Rightarrow> string" where
  "str_int i = (if i < 0 then CHR ''-'' # str_nat (nat (- i)) else str_nat (nat i))"

section \<open>Frames, drawing calls and the events of a run\<close>

text \<open>
  An image is a list of pixel rows. \<^verbatim>\<open>cv2.flip(src, flipCode)\<close> mirrors around the x-axis
  for \<open>flipCode = 0\<close>, around the y-axis for a positive code and around both for a
  negative one; the loop calls it with code 1.
\<close>

type_synonym 'px image = "'px list list"

definition cv2_flip :: "'px image \<Rightarrow> int \<Rightarrow> 'px image" where
  "cv2_flip src flipCode =
     (if flipCode = 0 then rev src
      else if 0 < flipCode then map rev src
      else rev (map rev src))"

text \<open>
  The drawing calls mutate the frame in place. The model keeps the frame as the flipped
  image together with the drawing calls applied to it so far, in order:
  \<^verbatim>\<open>cv2.rectangle(frame, pt1, pt2, color, thickness)\<close> and
  \<^verbatim>\<open>cv2.putText(frame, text, org, font, font_scale, color, thickness)\<close>, the font and scale
  being the constants \<^verbatim>\<open>FONT_HERSHEY_SIMPLEX\<close> and \<^verbatim>\<open>0.7\<close> of the source.
\<close>

datatype draw_op =
    Rectangle "int \<times> int" "int \<times> int" "int \<times> int \<times> int" int
  | PutText string "int \<times> int" "int \<times> int \<times> int" int

record 'px frame =
  image :: "'px image"
  drawn :: "draw_op list"

definition captured :: "'px image \<Rightarrow> 'px frame" where
  "captured img = \<lparr>image = img, drawn = []\<rparr>"

definition draw :: "draw_op \<Rightarrow> 'px frame \<Rightarrow> 'px frame" where
  "draw d fr = fr\<lparr>drawn := drawn fr @ [d]\<rparr>"

text \<open>Everything the script does to the outside world, in the order it does it.\<close>

datatype 'px event =
    Print string
  | Sleep int
  | OpenCamera int
  | Analyze "'px image" string
  | Imencode "'px frame"
  | Yield string
  | AppRun string int

section \<open>Configuration and collaborators\<close>

text \<open>
  The three module constants, and \<^verbatim>\<open>cv2.getTextSize\<close> for the fixed font, scale and
  thickness: the width and height of a rendered string.
\<close>

record env =
  FRAME_SKIP :: int
  DETECTOR_BACKEND :: string
  CAMERA_INDEX :: int
  getTextSize :: "string \<Rightarrow> int \<times> int"

text \<open>
  What \<^verbatim>\<open>cv2.VideoCapture(CAMERA_INDEX)\<close> does: it returns a capture that is opened, one
  that is not, or raises.
\<close>

datatype open_result = IsOpened | NotOpened | OpenRaised string

datatype video_capture = VideoCapture int

text \<open>
  One pass through the \<^verbatim>\<open>while True\<close> body meets the collaborators at most once each.
  A tick holds what each of them answers in that pass, if asked: \<^verbatim>\<open>cap.read()\<close>
  (\<open>None\<close> for \<^verbatim>\<open>ret == False\<close>), \<^verbatim>\<open>cv2.VideoCapture\<close>, \<^verbatim>\<open>DeepFace.analyze\<close> (\<open>Inl\<close> the
  message of the exception it raised) and \<^verbatim>\<open>cv2.imencode\<close> (\<open>None\<close> for
  \<^verbatim>\<open>ret == False\<close>, otherwise the bytes of the buffer).
\<close>

record 'px tick =
  read_ret :: "'px image option"
  open_ret :: open_result
  analyze_ret :: "string + face list"
  imencode_ret :: "string option"

section \<open>initialize_camera\<close>

definition tip :: string where
  "tip = ''Tip: Try changing CAMERA_INDEX to 0, 1, or 2.''"

definition initialize_camera :: "env \<Rightarrow> open_result \<Rightarrow> 'px event list \<times> video_capture option" where
  "initialize_camera cfg r =
     (case r of
        IsOpened \<Rightarrow>
          ([OpenCamera (CAMERA_INDEX cfg), Print ''Camera initialized successfully.''],
           Some (VideoCapture (CAMERA_INDEX cfg)))
      | NotOpened \<Rightarrow>
          ([OpenCamera (CAMERA_INDEX cfg),
            Print (''Error initializing camera: '' @
                   ''Cannot open webcam at index '' @ str_int (CAMERA_INDEX cfg) @ ''.''),
            Print tip],
           None)
      | OpenRaised msg \<Rightarrow>
          ([OpenCamera (CAMERA_INDEX cfg),
            Print (''Error initializing camera: '' @ msg),
            Print tip],
           None))"

section \<open>generate_frames\<close>

text \<open>The locals of the generator and the global \<^verbatim>\<open>cap\<close>.\<close>

record loop_state =
  cap :: "video_capture option"
  frame_count :: int
  last_detected_faces :: "face list"

subsection \<open>Lines 66-80: the throttle and the cache\<close>

text \<open>
  The new value of \<^verbatim>\<open>last_detected_faces\<close> and the call made to the detector, if any.
  \<^verbatim>\<open>%\<close> by zero raises; Python's \<^verbatim>\<open>%\<close> and HOL's \<open>mod\<close> on \<open>int\<close> both take the sign of
  the divisor.
\<close>

definition attempt :: "string + face list \<Rightarrow> face list" where
  "attempt r = (case r of Inl e \<Rightarrow> [] | Inr detected_faces \<Rightarrow> detected_faces)"

definition throttle ::
  "env \<Rightarrow> loop_state \<Rightarrow> 'px tick \<Rightarrow> 'px image \<Rightarrow> py_error + ('px event list \<times> face list)" where
  "throttle cfg s t fr =
     (if FRAME_SKIP cfg = 0 then Inl ZeroDivisionError
      else if frame_count s mod FRAME_SKIP cfg = 0
        then Inr ([Analyze fr (DETECTOR_BACKEND cfg)], attempt (analyze_ret t))
        else Inr ([], last_detected_faces s))"

subsection \<open>Lines 83-104: the overlay\<close>

definition green :: "int \<times> int \<times> int" where
  "green = (0, 255, 0)"

definition black :: "int \<times> int \<times> int" where
  "black = (0, 0, 0)"

text \<open>The three drawing calls for a face at \<open>(x, y, w, h)\<close> with the capitalised label.\<close>

definition face_ops :: "env \<Rightarrow> int \<Rightarrow> int \<Rightarrow> int \<Rightarrow> int \<Rightarrow> string \<Rightarrow> draw_op list" where
  "face_ops cfg x y w h emotion =
     (let label = ''Emotion: '' @ emotion;
          (text_w, text_h) = getTextSize cfg label
      in [Rectangle (x, y) (x + w, y + h) green 2,
          Rectangle (x, y - text_h - 10) (x + text_w, y - 5) green (- 1),
          PutText label (x, y - 10) black 2])"

text \<open>
  One pass of the \<^verbatim>\<open>for face_data in last_detected_faces\<close> body. The subscripts are
  evaluated first, then \<^verbatim>\<open>capitalize\<close>, then the arithmetic of the first drawing call, so
  an exception leaves the frame as it was.
\<close>

definition draw_face :: "env \<Rightarrow> face \<Rightarrow> 'px frame \<Rightarrow> py_error + 'px frame" where
  "draw_face cfg face_data fr =
     (let region = dict_get face_data ''region'';
          emotion_raw = dict_get face_data ''dominant_emotion''
      in if \<not> truthy region \<or> \<not> truthy emotion_raw then Inr fr
         else
           (case subscript region ''x'' of Inl e \<Rightarrow> Inl e | Inr x \<Rightarrow>
            case subscript region ''y'' of Inl e \<Rightarrow> Inl e | Inr y \<Rightarrow>
            case subscript region ''w'' of Inl e \<Rightarrow> Inl e | Inr w \<Rightarrow>
            case subscript region ''h'' of Inl e \<Rightarrow> Inl e | Inr h \<Rightarrow>
            case call_capitalize emotion_raw of Inl e \<Rightarrow> Inl e | Inr emotion \<Rightarrow>
            case as_int x of Inl e \<Rightarrow> Inl e | Inr xi \<Rightarrow>
            case as_int w of Inl e \<Rightarrow> Inl e | Inr wi \<Rightarrow>
            case as_int y of Inl e \<Rightarrow> Inl e | Inr yi \<Rightarrow>
            case as_int h of Inl e \<Rightarrow> Inl e | Inr hi \<Rightarrow>
              Inr (foldl (\<lambda>f d. draw d f) fr (face_ops cfg xi yi wi hi emotion))))"

fun draw_faces :: "env \<Rightarrow> face list \<Rightarrow> 'px frame \<Rightarrow> py_error + 'px frame" where
  "draw_faces cfg [] fr = Inr fr"
| "draw_faces cfg (face_data # rest) fr =
     (case draw_face cfg face_data fr of
        Inl e \<Rightarrow> Inl e
      | Inr fr' \<Rightarrow> draw_faces cfg rest fr')"

text \<open>\<^verbatim>\<open>if last_detected_faces:\<close> guards the loop.\<close>

definition overlay :: "env \<Rightarrow> face list \<Rightarrow> 'px frame \<Rightarrow> py_error + 'px frame" where
  "overlay cfg faces fr = (if faces \<noteq> [] then draw_faces cfg faces fr else Inr fr)"

subsection \<open>Lines 110-119: encoding and the multipart part\<close>

definition CRLF :: string where
  "CRLF = [CHR 0x0D, CHR 0x0A]"

definition part :: "string \<Rightarrow> string" where
  "part frame_bytes =
     (''--frame'' @ CRLF @ ''Content-Type: image/jpeg'' @ CRLF @ CRLF) @ frame_bytes @ CRLF"

definition encode_and_yield :: "'px tick \<Rightarrow> 'px frame \<Rightarrow> 'px event list" where
  "encode_and_yield t fr =
     Imencode fr #
     (case imencode_ret t of
        None \<Rightarrow> []
      | Some frame_bytes \<Rightarrow> [Yield (part frame_bytes)])"

subsection \<open>The body of the loop\<close>

text \<open>
  Lines 82-119 for a flipped frame and the detections to draw: the events, and the
  exception if drawing raised. \<^verbatim>\<open>frame_count += 1\<close> stands between drawing and
  encoding, so it is reached exactly when drawing did not raise.
\<close>

definition render_and_emit ::
  "env \<Rightarrow> face list \<Rightarrow> 'px image \<Rightarrow> 'px tick \<Rightarrow> 'px event list \<times> py_error option" where
  "render_and_emit cfg faces img t =
     (case overlay cfg faces (captured img) of
        Inl e \<Rightarrow> ([], Some e)
      | Inr fr \<Rightarrow> (encode_and_yield t fr, None))"

text \<open>Lines 63-119: a frame that was read.\<close>

definition process_frame ::
  "env \<Rightarrow> loop_state \<Rightarrow> 'px tick \<Rightarrow> 'px image \<Rightarrow> 'px event list \<times> (py_error + loop_state)" where
  "process_frame cfg s t raw =
     (let fr = cv2_flip raw 1 in
      case throttle cfg s t fr of
        Inl e \<Rightarrow> ([], Inl e)
      | Inr (called, faces) \<Rightarrow>
          (case render_and_emit cfg faces fr t of
             (evs, Some e) \<Rightarrow> (called @ evs, Inl e)
           | (evs, None) \<Rightarrow>
               (called @ evs,
                Inr (s\<lparr>frame_count := frame_count s + 1, last_detected_faces := faces\<rparr>))))"

text \<open>
  Lines 54-119: one pass. \<^verbatim>\<open>cap.read()\<close> on \<^verbatim>\<open>cap = None\<close> raises AttributeError; a failed
  read re-initialises the camera, sleeps one second and continues.
\<close>

definition loop_body ::
  "env \<Rightarrow> loop_state \<Rightarrow> 'px tick \<Rightarrow> 'px event list \<times> (py_error + loop_state)" where
  "loop_body cfg s t =
     (case cap s of
        None \<Rightarrow> ([], Inl AttributeError)
      | Some c \<Rightarrow>
          (case read_ret t of
             None \<Rightarrow>
               (let (evs, cap') = initialize_camera cfg (open_ret t)
                in (Print ''Error: Failed to grab frame. Re-initializing camera...'' # evs @ [Sleep 1],
                    Inr (s\<lparr>cap := cap'\<rparr>)))
           | Some raw \<Rightarrow> process_frame cfg s t raw))"

text \<open>
  The loop over the ticks the world supplies: the events of each pass, and either the
  exception that ended the generator or the state in which it waits for the next tick.
\<close>

fun generate_loop ::
  "env \<Rightarrow> loop_state \<Rightarrow> 'px tick list \<Rightarrow> 'px event list list \<times> (py_error + loop_state)" where
  "generate_loop cfg s [] = ([], Inr s)"
| "generate_loop cfg s (t # ts) =
     (case loop_body cfg s t of
        (evs, Inl e) \<Rightarrow> ([evs], Inl e)
      | (evs, Inr s') \<Rightarrow>
          (case generate_loop cfg s' ts of (log, r) \<Rightarrow> (evs # log, r)))"

text \<open>
  The generator from its first line: the global \<^verbatim>\<open>cap\<close> as it finds it, the answer of
  \<^verbatim>\<open>cv2.VideoCapture\<close> should it have to open the camera, and the ticks. It returns at
  once when the camera cannot be opened.
\<close>

datatype gen_result = Returned | Raised py_error | Waiting loop_state

definition start :: "video_capture \<Rightarrow> loop_state" where
  "start c = \<lparr>cap = Some c, frame_count = 0, last_detected_faces = []\<rparr>"

definition run_loop ::
  "env \<Rightarrow> video_capture \<Rightarrow> 'px tick list \<Rightarrow> 'px event list list \<times> gen_result" where
  "run_loop cfg c ticks =
     (case generate_loop cfg (start c) ticks of
        (log, Inl e) \<Rightarrow> (log, Raised e)
      | (log, Inr s) \<Rightarrow> (log, Waiting s))"

definition generate_frames ::
  "env \<Rightarrow> video_capture option \<Rightarrow> open_result \<Rightarrow> 'px tick list
     \<Rightarrow> 'px event list \<times> 'px event list list \<times> gen_result" where
  "generate_frames cfg cap0 r ticks =
     (case cap0 of
        Some c \<Rightarrow> ([], run_loop cfg c ticks)
      | None \<Rightarrow>
          (let (evs, cap1) = initialize_camera cfg r;
               pre = Print ''Camera not initialized. Attempting to initialize...'' # evs
           in case cap1 of
                None \<Rightarrow> (pre, [], Returned)
              | Some c \<Rightarrow> (pre, run_loop cfg c ticks)))"

section \<open>main\<close>

definition main :: "env \<Rightarrow> open_result \<Rightarrow> 'px event list" where
  "main cfg r =
     (let (evs, cap1) = initialize_camera cfg r;
          pre = Print ''Initializing camera...'' # evs
      in case cap1 of
           None \<Rightarrow> pre @ [Print ''Failed to initialize camera. Exiting.'']
         | Some c \<Rightarrow>
             pre @ [Print ''Starting Flask server...'',
                    Print ''Open http://127.0.0.1:5001 in your browser.'',
                    AppRun ''0.0.0.0'' 5001])"

text \<open>The constants as the script sets them, around a given \<^verbatim>\<open>cv2.getTextSize\<close>.\<close>

definition script_env :: "(string \<Rightarrow> int \<times> int) \<Rightarrow> env" where
  "script_env gts =
     \<lparr>FRAME_SKIP = 10, DETECTOR_BACKEND = ''opencv'', CAMERA_INDEX = 1, getTextSize = gts\<rparr>"

section \<open>Observations on a run\<close>

text \<open>The images handed to the detector, the frames handed to the encoder and the parts
  yielded, in a list of events.\<close>

fun analyzed :: "'px event list \<Rightarrow> 'px image list" where
  "analyzed [] = []"
| "analyzed (Analyze img b # evs) = img # analyzed evs"
| "analyzed (e # evs) = analyzed evs"

fun encoded :: "'px event list \<Rightarrow> 'px frame list" where
  "encoded [] = []"
| "encoded (Imencode fr # evs) = fr # encoded evs"
| "encoded (e # evs) = encoded evs"

fun yielded :: "'px event list \<Rightarrow> string list" where
  "yielded [] = []"
| "yielded (Yield p # evs) = p # yielded evs"
| "yielded (e # evs) = yielded evs"

text \<open>The servers started: host and port of each \<^verbatim>\<open>app.run\<close>.\<close>

fun served :: "'px event list \<Rightarrow> (string \<times> int) list" where
  "served [] = []"
| "served (AppRun host port # evs) = (host, port) # served evs"
| "served (e # evs) = served evs"

text \<open>The index of the latest frame, up to frame \<open>i\<close>, whose index is a multiple of \<open>N\<close>.\<close>

definition last_attempt :: "int \<Rightarrow> nat \<Rightarrow> nat" where
  "last_attempt N i = i - nat (int i mod N)"

section \<open>The renderer as the specification words it\<close>

text \<open>
  The data model of the specification: a Detection has a region, a rectangle of four
  integers \<open>x\<close>, \<open>y\<close>, \<open>w\<close>, \<open>h\<close>, which may be missing, and a dominant emotion label, a
  string, which may be missing or empty. \<open>region_box\<close> and \<open>emotion_label\<close> read them off the
  dictionary; \<open>detection\<close> says that a dictionary is a Detection in this sense.
\<close>

definition int_at :: "(string \<times> pyval) list \<Rightarrow> string \<Rightarrow> int option" where
  "int_at d k = (case map_of d k of Some (PyInt n) \<Rightarrow> Some n | _ \<Rightarrow> None)"

fun region_box :: "pyval \<Rightarrow> (int \<times> int \<times> int \<times> int) option" where
  "region_box (PyDict d) =
     (case int_at d ''x'' of None \<Rightarrow> None | Some x \<Rightarrow>
      case int_at d ''y'' of None \<Rightarrow> None | Some y \<Rightarrow>
      case int_at d ''w'' of None \<Rightarrow> None | Some w \<Rightarrow>
      case int_at d ''h'' of None \<Rightarrow> None | Some h \<Rightarrow> Some (x, y, w, h))"
| "region_box _ = None"

fun emotion_label :: "pyval \<Rightarrow> string option" where
  "emotion_label (PyStr s) = (if s = [] then None else Some s)"
| "emotion_label _ = None"

fun absent_or_str :: "pyval \<Rightarrow> bool" where
  "absent_or_str PyNone = True"
| "absent_or_str (PyStr s) = True"
| "absent_or_str _ = False"

definition detection :: "face \<Rightarrow> bool" where
  "detection f =
     ((dict_get f ''region'' = PyNone \<or> region_box (dict_get f ''region'') \<noteq> None) \<and>
      absent_or_str (dict_get f ''dominant_emotion''))"

text \<open>
  The specification's renderer, for comparison with \<open>overlay\<close>: each Detection with both
  a region and a non-empty label contributes its three drawing calls, in the order of
  the set; the others contribute nothing.
\<close>

definition spec_ops :: "env \<Rightarrow> face \<Rightarrow> draw_op list" where
  "spec_ops cfg f =
     (case region_box (dict_get f ''region'') of
        None \<Rightarrow> []
      | Some (x, y, w, h) \<Rightarrow>
          (case emotion_label (dict_get f ''dominant_emotion'') of
             None \<Rightarrow> []
           | Some s \<Rightarrow> face_ops cfg x y w h (capitalize s)))"

definition spec_render :: "env \<Rightarrow> face list \<Rightarrow> 'px frame \<Rightarrow> 'px frame" where
  "spec_render cfg faces fr = fr\<lparr>drawn := drawn fr @ concat (map (spec_ops cfg) faces)\<rparr>"

section \<open>The loop over a list of ticks\<close>

lemma generate_loop_length:
  "length (fst (generate_loop cfg s ticks)) \<le> length ticks"
proof (induction ticks arbitrary: s)
  case Nil
  then show ?case by simp
next
  case (Cons t ts)
  show ?case
  proof (cases "loop_body cfg s t")
    case (Pair evs r)
    show ?thesis
    proof (cases r)
      case (Inl e)
      with Pair show ?thesis by simp
    next
      case (Inr s')
      with Pair Cons.IH [of s'] show ?thesis
        by (cases "generate_loop cfg s' ts") simp
    qed
  qed
qed

lemma generate_loop_append:
  "generate_loop cfg s (xs @ ys) =
     (case generate_loop cfg s xs of
        (l1, Inl e) \<Rightarrow> (l1, Inl e)
      | (l1, Inr s') \<Rightarrow> (case generate_loop cfg s' ys of (l2, r) \<Rightarrow> (l1 @ l2, r)))"
proof (induction xs arbitrary: s)
  case Nil
  show ?case by (cases "generate_loop cfg s ys") simp
next
  case (Cons t ts)
  show ?case
  proof (cases "loop_body cfg s t")
    case (Pair evs r)
    show ?thesis
    proof (cases r)
      case (Inl e)
      with Pair show ?thesis by simp
    next
      case (Inr s')
      with Pair Cons.IH [of s'] show ?thesis
        by (simp split: prod.splits sum.splits)
    qed
  qed
qed

lemma generate_loop_nth:
  "generate_loop cfg s ticks = (log, r) \<Longrightarrow> i < length log \<Longrightarrow>
     \<exists>si. generate_loop cfg s (take i ticks) = (take i log, Inr si) \<and>
          log ! i = fst (loop_body cfg si (ticks ! i))"
proof (induction ticks arbitrary: s log i)
  case Nil
  then show ?case by simp
next
  case (Cons t ts)
  obtain evs r0 where lb: "loop_body cfg s t = (evs, r0)"
    by (cases "loop_body cfg s t")
  show ?case
  proof (cases i)
    case 0
    with Cons.prems lb show ?thesis
      by (cases r0; cases "generate_loop cfg (projr r0) ts") auto
  next
    case (Suc j)
    show ?thesis
    proof (cases r0)
      case (Inl e)
      with Cons.prems lb Suc show ?thesis by auto
    next
      case (Inr s')
      obtain log' r' where gl: "generate_loop cfg s' ts = (log', r')"
        by (cases "generate_loop cfg s' ts")
      with Cons.prems lb Inr have log: "log = evs # log'" and r: "r' = r"
        by auto
      from log Cons.prems Suc have j: "j < length log'" by simp
      from gl r have gl': "generate_loop cfg s' ts = (log', r)" by simp
      from Cons.IH [OF gl' j] obtain si where
        "generate_loop cfg s' (take j ts) = (take j log', Inr si)"
        "log' ! j = fst (loop_body cfg si (ts ! j))" by blast
      with lb Inr Suc log show ?thesis by simp
    qed
  qed
qed


subsection \<open>The latest attempt\<close>

lemma last_attempt_hit: "int k mod N = 0 \<Longrightarrow> last_attempt N k = k"
  by (simp add: last_attempt_def)

lemma last_attempt_skip:
  assumes "1 \<le> N" "int k mod N \<noteq> 0"
  shows "last_attempt N k = last_attempt N (k - 1) \<and> 0 < k"
proof -
  from assms have k: "0 < k" by (cases k) auto
  let ?m = "int k mod N"
  from assms(1) have "0 \<le> ?m" and mN: "?m < N" by simp_all
  with assms(2) have m: "1 \<le> ?m" by linarith
  have mk: "?m \<le> int k"
    using assms zmod_le_nonneg_dividend [of "int k" N] by simp
  have "(int k - 1) mod N = ?m - 1"
  proof -
    have "(int k - 1) mod N = (?m - 1) mod N"
      by (simp add: mod_diff_left_eq)
    also from m mN have "\<dots> = ?m - 1" by simp
    finally show ?thesis .
  qed
  with k have "int (k - 1) mod N = ?m - 1"
    by (simp add: of_nat_diff)
  with k m mk show ?thesis
    by (auto simp: last_attempt_def)
qed

subsection \<open>One pass over a frame that was read\<close>

lemma throttle_Inr:
  "FRAME_SKIP cfg \<noteq> 0 \<Longrightarrow>
   throttle cfg s t fr =
     Inr (if frame_count s mod FRAME_SKIP cfg = 0 then [Analyze fr (DETECTOR_BACKEND cfg)] else [],
          if frame_count s mod FRAME_SKIP cfg = 0 then attempt (analyze_ret t)
          else last_detected_faces s)"
  by (simp add: throttle_def)

lemma process_frame_events:
  "FRAME_SKIP cfg \<noteq> 0 \<Longrightarrow>
   fst (process_frame cfg s t raw) =
     (if frame_count s mod FRAME_SKIP cfg = 0
      then [Analyze (cv2_flip raw 1) (DETECTOR_BACKEND cfg)] else []) @
     fst (render_and_emit cfg
           (if frame_count s mod FRAME_SKIP cfg = 0 then attempt (analyze_ret t)
            else last_detected_faces s)
           (cv2_flip raw 1) t)"
  by (simp add: process_frame_def throttle_Inr Let_def split: prod.splits option.splits)

lemma process_frame_state:
  "FRAME_SKIP cfg \<noteq> 0 \<Longrightarrow> process_frame cfg s t raw = (evs, Inr s') \<Longrightarrow>
   s' = s\<lparr>frame_count := frame_count s + 1,
          last_detected_faces :=
            (if frame_count s mod FRAME_SKIP cfg = 0 then attempt (analyze_ret t)
             else last_detected_faces s)\<rparr>"
  by (auto simp: process_frame_def throttle_Inr Let_def split: prod.splits option.splits)

lemma loop_body_read:
  "cap s = Some c \<Longrightarrow> read_ret t = Some raw \<Longrightarrow> loop_body cfg s t = process_frame cfg s t raw"
  by (simp add: loop_body_def)

subsection \<open>The state after a run of successful reads\<close>

lemma state_after:
  assumes N: "1 \<le> FRAME_SKIP cfg"
  shows "\<forall>t\<in>set ticks. read_ret t \<noteq> None \<Longrightarrow>
         generate_loop cfg (start c) ticks = (log, Inr s) \<Longrightarrow>
         cap s = Some c \<and> frame_count s = int (length ticks) \<and> length log = length ticks \<and>
         (ticks \<noteq> [] \<longrightarrow>
            last_detected_faces s =
              attempt (analyze_ret (ticks ! last_attempt (FRAME_SKIP cfg) (length ticks - 1))))"
proof (induction ticks arbitrary: log s rule: rev_induct)
  case Nil
  then show ?case by (auto simp: start_def)
next
  case (snoc t ts)
  from snoc.prems(2) obtain l1 s1 evs where
    g1: "generate_loop cfg (start c) ts = (l1, Inr s1)" and
    lb: "loop_body cfg s1 t = (evs, Inr s)" and
    log: "log = l1 @ [evs]"
    by (auto simp: generate_loop_append split: prod.splits sum.splits)
  from snoc.prems(1) have ok: "\<forall>t\<in>set ts. read_ret t \<noteq> None" by simp
  from snoc.IH [OF ok g1] have
    ih: "cap s1 = Some c" "frame_count s1 = int (length ts)" "length l1 = length ts"
        "ts \<noteq> [] \<longrightarrow> last_detected_faces s1 =
           attempt (analyze_ret (ts ! last_attempt (FRAME_SKIP cfg) (length ts - 1)))"
    by auto
  from snoc.prems(1) obtain raw where raw: "read_ret t = Some raw" by auto
  from N have nz: "FRAME_SKIP cfg \<noteq> 0" by simp
  from lb ih(1) raw have "process_frame cfg s1 t raw = (evs, Inr s)"
    by (simp add: loop_body_read)
  from process_frame_state [OF nz this] have
    s: "s = s1\<lparr>frame_count := frame_count s1 + 1,
          last_detected_faces :=
            (if frame_count s1 mod FRAME_SKIP cfg = 0 then attempt (analyze_ret t)
             else last_detected_faces s1)\<rparr>" .
  have "last_detected_faces s =
          attempt (analyze_ret ((ts @ [t]) ! last_attempt (FRAME_SKIP cfg) (length ts)))"
  proof (cases "int (length ts) mod FRAME_SKIP cfg = 0")
    case True
    with s ih(2) show ?thesis by (simp add: last_attempt_hit)
  next
    case False
    from last_attempt_skip [OF N False] have
      eq: "last_attempt (FRAME_SKIP cfg) (length ts) = last_attempt (FRAME_SKIP cfg) (length ts - 1)"
      and pos: "0 < length ts" by auto
    have "last_attempt (FRAME_SKIP cfg) (length ts - 1) < length ts"
      using pos by (simp add: last_attempt_def)
    with False s ih(2) ih(4) pos eq show ?thesis by (simp add: nth_append)
  qed
  with s ih log show ?case by simp
qed


lemma analyzed_append: "analyzed (xs @ ys) = analyzed xs @ analyzed ys"
  by (induction xs rule: analyzed.induct) simp_all

lemma encoded_append: "encoded (xs @ ys) = encoded xs @ encoded ys"
  by (induction xs rule: encoded.induct) simp_all

lemma yielded_append: "yielded (xs @ ys) = yielded xs @ yielded ys"
  by (induction xs rule: yielded.induct) simp_all

lemma analyzed_render_and_emit: "analyzed (fst (render_and_emit cfg faces img t)) = []"
  by (simp add: render_and_emit_def encode_and_yield_def split: sum.splits option.splits)

lemma iteration_events:
  assumes N: "1 \<le> FRAME_SKIP cfg"
    and ok: "\<forall>t\<in>set ticks. read_ret t \<noteq> None"
    and run: "generate_loop cfg (start c) ticks = (log, r)"
    and i: "i < length log"
  shows "\<exists>raw. read_ret (ticks ! i) = Some raw \<and>
           log ! i =
             (if int i mod FRAME_SKIP cfg = 0
              then [Analyze (cv2_flip raw 1) (DETECTOR_BACKEND cfg)] else []) @
             fst (render_and_emit cfg
                   (attempt (analyze_ret (ticks ! last_attempt (FRAME_SKIP cfg) i)))
                   (cv2_flip raw 1) (ticks ! i))"
proof -
  from generate_loop_length [of cfg "start c" ticks] run i have il: "i < length ticks" by simp
  from generate_loop_nth [OF run i] obtain si where
    pre: "generate_loop cfg (start c) (take i ticks) = (take i log, Inr si)" and
    ev: "log ! i = fst (loop_body cfg si (ticks ! i))" by blast
  from ok have ok': "\<forall>t\<in>set (take i ticks). read_ret t \<noteq> None"
    by (auto dest: in_set_takeD)
  from state_after [OF N ok' pre] il have
    st: "cap si = Some c" "frame_count si = int i"
        "take i ticks \<noteq> [] \<longrightarrow> last_detected_faces si =
           attempt (analyze_ret (take i ticks ! last_attempt (FRAME_SKIP cfg) (i - 1)))"
    by (simp_all add: min_def)
  from il have "ticks ! i \<in> set ticks" by simp
  with ok obtain raw where raw: "read_ret (ticks ! i) = Some raw" by auto
  from N have nz: "FRAME_SKIP cfg \<noteq> 0" by simp
  have faces: "(if frame_count si mod FRAME_SKIP cfg = 0 then attempt (analyze_ret (ticks ! i))
                else last_detected_faces si) =
               attempt (analyze_ret (ticks ! last_attempt (FRAME_SKIP cfg) i))"
  proof (cases "int i mod FRAME_SKIP cfg = 0")
    case True
    with st(2) show ?thesis by (simp add: last_attempt_hit)
  next
    case False
    from last_attempt_skip [OF N False] have
      eq: "last_attempt (FRAME_SKIP cfg) i = last_attempt (FRAME_SKIP cfg) (i - 1)"
      and pos: "0 < i" by auto
    have lt: "last_attempt (FRAME_SKIP cfg) (i - 1) < i"
      using pos by (simp add: last_attempt_def)
    from pos il have "take i ticks \<noteq> []" by auto
    with st(3) lt eq False st(2) show ?thesis by simp
  qed
  from ev st(1) raw have "log ! i = fst (process_frame cfg si (ticks ! i) raw)"
    by (simp add: loop_body_read)
  with raw faces st(2) show ?thesis
    by (simp add: process_frame_events [OF nz])
qed

lemmas run_defs =
  start_def loop_body_def process_frame_def throttle_def attempt_def render_and_emit_def
  overlay_def encode_and_yield_def captured_def cv2_flip_def initialize_camera_def


subsection \<open>What a pass can emit\<close>

lemma served_append: "served (xs @ ys) = served xs @ served ys"
  by (induction xs rule: served.induct) simp_all

lemma set_encoded: "set (encoded evs) = {fr. Imencode fr \<in> set evs}"
  by (induction evs rule: encoded.induct) auto

lemma set_yielded: "set (yielded evs) = {p. Yield p \<in> set evs}"
  by (induction evs rule: yielded.induct) auto

lemma set_analyzed: "set (analyzed evs) = {img. \<exists>b. Analyze img b \<in> set evs}"
  by (induction evs rule: analyzed.induct) auto

lemma initialize_camera_quiet:
  "yielded (fst (initialize_camera cfg r)) = []"
  "encoded (fst (initialize_camera cfg r)) = []"
  "analyzed (fst (initialize_camera cfg r)) = []"
  by (simp_all add: initialize_camera_def split: open_result.splits)

lemma render_and_emit_cases:
  "render_and_emit cfg faces img t = (evs, r) \<Longrightarrow>
     (\<exists>e. overlay cfg faces (captured img) = Inl e \<and> evs = [] \<and> r = Some e) \<or>
     (\<exists>fr. overlay cfg faces (captured img) = Inr fr \<and> r = None \<and>
        evs = Imencode fr # (case imencode_ret t of None \<Rightarrow> [] | Some b \<Rightarrow> [Yield (part b)]))"
  by (auto simp: render_and_emit_def encode_and_yield_def split: sum.splits)

lemma loop_body_cases:
  fixes t :: "'px tick"
  assumes "loop_body cfg s t = (evs, r)"
  shows "(cap s = None \<and> evs = [] \<and> r = Inl AttributeError) \<or>
         (cap s \<noteq> None \<and> read_ret t = None \<and>
            evs = Print ''Error: Failed to grab frame. Re-initializing camera...'' #
                    fst (initialize_camera cfg (open_ret t)) @ [Sleep 1] \<and>
            r = Inr (s\<lparr>cap := snd (initialize_camera cfg (open_ret t)
                                       :: 'px event list \<times> video_capture option)\<rparr>)) \<or>
         (cap s \<noteq> None \<and> (\<exists>raw. read_ret t = Some raw) \<and> FRAME_SKIP cfg = 0 \<and>
            evs = [] \<and> r = Inl ZeroDivisionError) \<or>
         (cap s \<noteq> None \<and> FRAME_SKIP cfg \<noteq> 0 \<and>
            (\<exists>raw called faces.
               read_ret t = Some raw \<and>
               throttle cfg s t (cv2_flip raw 1) = Inr (called, faces) \<and>
               ((\<exists>e. overlay cfg faces (captured (cv2_flip raw 1)) = Inl e \<and>
                    evs = called \<and> r = Inl e) \<or>
                (\<exists>fr. overlay cfg faces (captured (cv2_flip raw 1)) = Inr fr \<and>
                    evs = called @ Imencode fr #
                      (case imencode_ret t of None \<Rightarrow> [] | Some b \<Rightarrow> [Yield (part b)]) \<and>
                    r = Inr (s\<lparr>frame_count := frame_count s + 1,
                               last_detected_faces := faces\<rparr>)))))"
proof (cases "cap s")
  case None
  with assms show ?thesis by (simp add: loop_body_def)
next
  case (Some c)
  show ?thesis
  proof (cases "read_ret t")
    case None
    with Some assms show ?thesis
      by (auto simp: loop_body_def case_prod_beta)
  next
    case (Some raw)
    note raw = this
    show ?thesis
    proof (cases "FRAME_SKIP cfg = 0")
      case True
      with \<open>cap s = Some c\<close> raw assms show ?thesis
        by (auto simp: loop_body_def process_frame_def throttle_def)
    next
      case False
      obtain called faces where th: "throttle cfg s t (cv2_flip raw 1) = Inr (called, faces)"
        using throttle_Inr [OF False, of s t "cv2_flip raw 1"] by blast
      obtain evs' r' where re: "render_and_emit cfg faces (cv2_flip raw 1) t = (evs', r')"
        by (cases "render_and_emit cfg faces (cv2_flip raw 1) t")
      from render_and_emit_cases [OF re] \<open>cap s = Some c\<close> raw assms th re False
      show ?thesis
        by (auto simp: loop_body_def process_frame_def)
    qed
  qed
qed

lemma throttle_called:
  "throttle cfg s t img = Inr (called, faces) \<Longrightarrow>
     yielded called = [] \<and> encoded called = [] \<and> (called = [] \<or> called = [Analyze img (DETECTOR_BACKEND cfg)])"
  by (auto simp: throttle_def split: if_splits)

lemma yielded_loop_body:
  "yielded (fst (loop_body cfg s t)) =
     (if encoded (fst (loop_body cfg s t)) = [] then []
      else case imencode_ret t of None \<Rightarrow> [] | Some b \<Rightarrow> [part b])"
proof -
  obtain evs r where lb: "loop_body cfg s t = (evs, r)" by (cases "loop_body cfg s t")
  from loop_body_cases [OF lb] show ?thesis
    unfolding lb
    by (auto simp: yielded_append encoded_append initialize_camera_quiet
             dest!: throttle_called split: option.splits)
qed

lemma encoded_loop_body_continues:
  "encoded (fst (loop_body cfg s t)) \<noteq> [] \<Longrightarrow> \<exists>s'. snd (loop_body cfg s t) = Inr s'"
proof -
  assume a: "encoded (fst (loop_body cfg s t)) \<noteq> []"
  obtain evs r where lb: "loop_body cfg s t = (evs, r)" by (cases "loop_body cfg s t")
  from loop_body_cases [OF lb] a show ?thesis
    unfolding lb
    by (auto simp: encoded_append initialize_camera_quiet dest!: throttle_called)
qed


lemma generate_loop_yielded:
  "generate_loop cfg s ticks = (log, r) \<Longrightarrow> p \<in> set (yielded (concat log)) \<Longrightarrow>
     \<exists>t\<in>set ticks. \<exists>b. imencode_ret t = Some b \<and> p = part b"
proof (induction ticks arbitrary: s log)
  case Nil
  then show ?case by simp
next
  case (Cons t ts)
  obtain evs r0 where lb: "loop_body cfg s t = (evs, r0)" by (cases "loop_body cfg s t")
  have here: "p \<in> set (yielded evs) \<Longrightarrow> \<exists>b. imencode_ret t = Some b \<and> p = part b"
    using yielded_loop_body [of cfg s t] lb by (auto split: if_splits option.splits)
  show ?case
  proof (cases r0)
    case (Inl e)
    with Cons.prems lb here show ?thesis by auto
  next
    case (Inr s')
    obtain log' where gl: "generate_loop cfg s' ts = (log', r)" and log: "log = evs # log'"
      using Cons.prems(1) lb Inr by (cases "generate_loop cfg s' ts") auto
    from Cons.prems(2) log have "p \<in> set (yielded evs) \<or> p \<in> set (yielded (concat log'))"
      by (simp add: yielded_append)
    then show ?thesis
    proof
      assume "p \<in> set (yielded evs)"
      with here show ?thesis by auto
    next
      assume "p \<in> set (yielded (concat log'))"
      from Cons.IH [OF gl this] show ?thesis by auto
    qed
  qed
qed




lemma capitalize_happy: "capitalize ''happy'' = ''Happy''"
  by code_simp

lemmas draw_defs =
  draw_face_def dict_get_def face_ops_def draw_def green_def black_def

lemma generate_loop_Inr_length:
  "generate_loop cfg s ticks = (log, Inr s') \<Longrightarrow> length log = length ticks"
proof (induction ticks arbitrary: s log)
  case Nil
  then show ?case by simp
next
  case (Cons t ts)
  obtain evs r0 where lb: "loop_body cfg s t = (evs, r0)" by (cases "loop_body cfg s t")
  show ?case
  proof (cases r0)
    case (Inl e)
    with Cons.prems lb show ?thesis by simp
  next
    case (Inr s1)
    obtain log' where "generate_loop cfg s1 ts = (log', Inr s')" "log = evs # log'"
      using Cons.prems lb Inr by (cases "generate_loop cfg s1 ts") auto
    with Cons.IH show ?thesis by auto
  qed
qed

lemma generate_loop_Inl_last:
  "generate_loop cfg s ticks = (log, Inl e) \<Longrightarrow>
     \<exists>si. log \<noteq> [] \<and> loop_body cfg si (ticks ! (length log - 1)) = (last log, Inl e)"
proof (induction ticks arbitrary: s log)
  case Nil
  then show ?case by simp
next
  case (Cons t ts)
  obtain evs r0 where lb: "loop_body cfg s t = (evs, r0)" by (cases "loop_body cfg s t")
  show ?case
  proof (cases r0)
    case (Inl e0)
    with Cons.prems lb show ?thesis by auto
  next
    case (Inr s1)
    obtain log' where gl: "generate_loop cfg s1 ts = (log', Inl e)" and log: "log = evs # log'"
      using Cons.prems lb Inr by (cases "generate_loop cfg s1 ts") auto
    from Cons.IH [OF gl] obtain si where
      ne: "log' \<noteq> []" and si: "loop_body cfg si (ts ! (length log' - 1)) = (last log', Inl e)"
      by blast
    from ne have "(t # ts) ! (length log - 1) = ts ! (length log' - 1)"
      using log by (cases log') simp_all
    with si ne log show ?thesis by auto
  qed
qed


subsection \<open>Drawing\<close>

lemma foldl_draw: "foldl (\<lambda>f d. draw d f) fr ds = fr\<lparr>drawn := drawn fr @ ds\<rparr>"
  by (induction ds arbitrary: fr) (simp_all add: draw_def)

lemma draw_face_skip:
  "\<not> truthy (dict_get f ''region'') \<or> \<not> truthy (dict_get f ''dominant_emotion'') \<Longrightarrow>
     draw_face cfg f fr = Inr fr"
  by (auto simp: draw_face_def Let_def)

lemma region_box_Some:
  assumes "region_box v = Some (x, y, w, h)"
  shows "truthy v \<and> subscript v ''x'' = Inr (PyInt x) \<and> subscript v ''y'' = Inr (PyInt y) \<and>
         subscript v ''w'' = Inr (PyInt w) \<and> subscript v ''h'' = Inr (PyInt h)"
proof (cases v)
  case (PyDict d)
  with assms have
    "int_at d ''x'' = Some x" "int_at d ''y'' = Some y"
    "int_at d ''w'' = Some w" "int_at d ''h'' = Some h"
    by (auto split: option.splits)
  then have
    g: "map_of d ''x'' = Some (PyInt x)" "map_of d ''y'' = Some (PyInt y)"
       "map_of d ''w'' = Some (PyInt w)" "map_of d ''h'' = Some (PyInt h)"
    by (auto simp: int_at_def split: option.splits pyval.splits)
  from g(1) have "d \<noteq> []" by auto
  with g PyDict show ?thesis by simp
qed (use assms in simp_all)

lemma draw_face_detection:
  assumes "detection f"
  shows "draw_face cfg f fr = Inr (fr\<lparr>drawn := drawn fr @ spec_ops cfg f\<rparr>)"
proof (cases "region_box (dict_get f ''region'')")
  case None
  with assms have "dict_get f ''region'' = PyNone" by (simp add: detection_def)
  with None show ?thesis by (simp add: draw_face_skip spec_ops_def)
next
  case (Some box)
  obtain x y w h where box: "box = (x, y, w, h)" by (cases box)
  note rb = region_box_Some [OF Some [unfolded box]]
  from assms have str: "absent_or_str (dict_get f ''dominant_emotion'')"
    by (simp add: detection_def)
  show ?thesis
  proof (cases "emotion_label (dict_get f ''dominant_emotion'')")
    case None
    with str have "\<not> truthy (dict_get f ''dominant_emotion'')"
      by (cases "dict_get f ''dominant_emotion''") (simp_all split: if_splits)
    with None Some box show ?thesis by (simp add: draw_face_skip spec_ops_def)
  next
    case (Some s)
    then have e: "dict_get f ''dominant_emotion'' = PyStr s" and ne: "s \<noteq> []"
      by (cases "dict_get f ''dominant_emotion''"; simp split: if_splits)+
    from rb e ne Some \<open>region_box (dict_get f ''region'') = Some box\<close> box show ?thesis
      by (simp add: draw_face_def Let_def spec_ops_def foldl_draw del: capitalize.simps)
  qed
qed

lemma draw_faces_detections:
  "\<forall>f\<in>set faces. detection f \<Longrightarrow>
     draw_faces cfg faces fr = Inr (fr\<lparr>drawn := drawn fr @ concat (map (spec_ops cfg) faces)\<rparr>)"
  by (induction faces arbitrary: fr) (simp_all add: draw_face_detection)

lemma capitalize_sad: "capitalize ''sad'' = ''Sad''"
  by code_simp


lemma str_int_1: "str_int 1 = ''1''"
  by code_simp

lemma reopen_success_resumes:
  assumes "cap s = Some c" and "read_ret t = None" and "open_ret t = IsOpened"
  shows "generate_loop cfg s (t # ts) =
           ([Print ''Error: Failed to grab frame. Re-initializing camera...'',
             OpenCamera (CAMERA_INDEX cfg), Print ''Camera initialized successfully.'',
             Sleep 1] #
            fst (generate_loop cfg (s\<lparr>cap := Some (VideoCapture (CAMERA_INDEX cfg))\<rparr>) ts),
            snd (generate_loop cfg (s\<lparr>cap := Some (VideoCapture (CAMERA_INDEX cfg))\<rparr>) ts))"
  using assms
  by (simp add: loop_body_def initialize_camera_def case_prod_beta)

lemma draw_face_image: "draw_face cfg f fr = Inr fr' \<Longrightarrow> image fr' = image fr"
  by (auto simp: draw_face_def Let_def foldl_draw split: sum.splits if_splits)

lemma draw_faces_image: "draw_faces cfg faces fr = Inr fr' \<Longrightarrow> image fr' = image fr"
proof (induction faces arbitrary: fr)
  case Nil
  then show ?case by simp
next
  case (Cons f fs)
  then show ?case
    by (cases "draw_face cfg f fr") (auto dest: draw_face_image)
qed

lemma overlay_image: "overlay cfg faces fr = Inr fr' \<Longrightarrow> image fr' = image fr"
  by (auto simp: overlay_def dest: draw_faces_image split: if_splits)


subsection \<open>Evaluation\<close>

lemma list_of_length_10:
  assumes "length xs = 10"
  obtains x0 x1 x2 x3 x4 x5 x6 x7 x8 x9 where "xs = [x0, x1, x2, x3, x4, x5, x6, x7, x8, x9]"
proof -
  from assms have "length xs = Suc (Suc (Suc (Suc (Suc (Suc (Suc (Suc (Suc (Suc 0)))))))))"
    by simp
  then show ?thesis
    by (auto simp: length_Suc_conv intro: that)
qed

lemma yield_tail_quiet:
  "encoded (case x of None \<Rightarrow> [] | Some b \<Rightarrow> [Yield (part b)]) = []"
  "analyzed (case x of None \<Rightarrow> [] | Some b \<Rightarrow> [Yield (part b)]) = []"
  by (cases x; simp)+


section \<open>The throttle\<close>

text \<open>
  C1. With \<open>FRAME_SKIP = N \<ge> 1\<close> and every read successful, the detector is called in
  pass \<open>i\<close> exactly once, on the flipped frame of that pass, when \<open>i\<close> is a multiple of \<open>N\<close>,
  and not at all otherwise; and when the generator is still waiting after the ticks,
  every tick was a pass and \<^verbatim>\<open>frame_count\<close> is the number of frames processed.
\<close>

theorem inference_every_Nth_frame:
  assumes "1 \<le> FRAME_SKIP cfg"
    and "\<forall>t\<in>set ticks. read_ret t \<noteq> None"
    and "generate_loop cfg (start c) ticks = (log, r)"
  shows "(\<forall>i<length log.
            analyzed (log ! i) =
              (if int i mod FRAME_SKIP cfg = 0 then [cv2_flip (the (read_ret (ticks ! i))) 1]
               else [])) \<and>
         (\<forall>s. r = Inr s \<longrightarrow> length log = length ticks \<and> frame_count s = int (length ticks))"
proof (intro conjI allI impI)
  fix i assume "i < length log"
  from iteration_events [OF assms this] show
    "analyzed (log ! i) =
       (if int i mod FRAME_SKIP cfg = 0 then [cv2_flip (the (read_ret (ticks ! i))) 1] else [])"
    by (auto simp: analyzed_append analyzed_render_and_emit)
next
  fix s assume "r = Inr s"
  with assms state_after [of cfg ticks c log s] show "length log = length ticks" by simp
next
  fix s assume "r = Inr s"
  with assms state_after [of cfg ticks c log s] show "frame_count s = int (length ticks)" by simp
qed

theorem inference_every_Nth_frame_witness:
  "map analyzed (fst (generate_loop
      \<lparr>FRAME_SKIP = 2, DETECTOR_BACKEND = ''opencv'', CAMERA_INDEX = 1, getTextSize = (\<lambda>s. (0, 0))\<rparr>
      (start (VideoCapture 1))
      [\<lparr>read_ret = Some [[1::nat, 2]], open_ret = IsOpened, analyze_ret = Inr [], imencode_ret = Some ''a''\<rparr>,
       \<lparr>read_ret = Some [[3, 4]], open_ret = IsOpened, analyze_ret = Inr [], imencode_ret = Some ''b''\<rparr>,
       \<lparr>read_ret = Some [[5, 6]], open_ret = IsOpened, analyze_ret = Inl ''x'', imencode_ret = None\<rparr>]))
   = [[[[2, 1]]], [], [[[6, 5]]]]"
  using inference_every_Nth_frame [of
      "\<lparr>FRAME_SKIP = 2, DETECTOR_BACKEND = ''opencv'', CAMERA_INDEX = 1, getTextSize = (\<lambda>s. (0, 0))\<rparr>"
      "[\<lparr>read_ret = Some [[1::nat, 2]], open_ret = IsOpened, analyze_ret = Inr [], imencode_ret = Some ''a''\<rparr>,
       \<lparr>read_ret = Some [[3, 4]], open_ret = IsOpened, analyze_ret = Inr [], imencode_ret = Some ''b''\<rparr>,
       \<lparr>read_ret = Some [[5, 6]], open_ret = IsOpened, analyze_ret = Inl ''x'', imencode_ret = None\<rparr>]"
      "VideoCapture 1", OF _ _ surjective_pairing]
  by (simp add: run_defs Let_def)





section \<open>The overlay\<close>

text \<open>
  C4. On a Detection Set the overlay never raises and draws exactly what the
  specification's renderer draws: nothing for a Detection without a region or without a
  non-empty label, and the rectangle, label background and label of every other
  Detection, in the order of the set. A dictionary whose region is missing or \<^verbatim>\<open>None\<close>, or
  whose label is missing, \<^verbatim>\<open>None\<close> or empty, is passed over without an error whatever else
  it holds.
\<close>

theorem overlay_skips_incomplete_detections:
  assumes "\<forall>f\<in>set faces. detection f"
  shows "overlay cfg faces fr = Inr (spec_render cfg faces fr) \<and>
         (\<forall>f fr'. dict_get f ''region'' = PyNone \<or>
                  dict_get f ''dominant_emotion'' = PyNone \<or>
                  dict_get f ''dominant_emotion'' = PyStr [] \<longrightarrow>
                  draw_face cfg f fr' = Inr fr' \<and> spec_ops cfg f = [])"
proof
  show "overlay cfg faces fr = Inr (spec_render cfg faces fr)"
    using draw_faces_detections [OF assms, of cfg fr]
    by (simp add: overlay_def spec_render_def)
  show "\<forall>f fr'. dict_get f ''region'' = PyNone \<or>
                  dict_get f ''dominant_emotion'' = PyNone \<or>
                  dict_get f ''dominant_emotion'' = PyStr [] \<longrightarrow>
                  draw_face cfg f fr' = Inr fr' \<and> spec_ops cfg f = []"
  proof (intro allI impI)
    fix f fr'
    assume "dict_get f ''region'' = PyNone \<or>
            dict_get f ''dominant_emotion'' = PyNone \<or>
            dict_get f ''dominant_emotion'' = PyStr []"
    then show "draw_face cfg f fr' = Inr fr' \<and> spec_ops cfg f = []"
      by (elim disjE) (simp_all add: draw_face_skip spec_ops_def split: option.splits)
  qed
qed

theorem overlay_skips_incomplete_detections_witness:
  "overlay \<lparr>FRAME_SKIP = 10, DETECTOR_BACKEND = ''opencv'', CAMERA_INDEX = 1,
            getTextSize = (\<lambda>s. (int (length s) * 10, 20))\<rparr>
     [[(''region'', PyDict [(''x'', PyInt 10), (''y'', PyInt 40), (''w'', PyInt 50), (''h'', PyInt 60)]),
       (''dominant_emotion'', PyStr ''happy'')],
      [(''dominant_emotion'', PyStr ''angry'')],
      [(''region'', PyDict [(''x'', PyInt 1), (''y'', PyInt 2), (''w'', PyInt 3), (''h'', PyInt 4)]),
       (''dominant_emotion'', PyStr '''')],
      [(''region'', PyNone), (''dominant_emotion'', PyNone)],
      [(''region'', PyDict [(''x'', PyInt 100), (''y'', PyInt 100), (''w'', PyInt 5), (''h'', PyInt 5)]),
       (''dominant_emotion'', PyStr ''sad'')]]
     \<lparr>image = [[1::nat]], drawn = []\<rparr>
   = Inr \<lparr>image = [[1]],
          drawn = [Rectangle (10, 40) (60, 100) (0, 255, 0) 2,
                   Rectangle (10, 10) (150, 35) (0, 255, 0) (- 1),
                   PutText ''Emotion: Happy'' (10, 30) (0, 0, 0) 2,
                   Rectangle (100, 100) (105, 105) (0, 255, 0) 2,
                   Rectangle (100, 70) (220, 95) (0, 255, 0) (- 1),
                   PutText ''Emotion: Sad'' (100, 90) (0, 0, 0) 2]\<rparr>"
proof -
  let ?cfg = "\<lparr>FRAME_SKIP = 10, DETECTOR_BACKEND = ''opencv'', CAMERA_INDEX = 1,
            getTextSize = (\<lambda>s. (int (length s) * 10, 20))\<rparr>"
  let ?faces =
     "[[(''region'', PyDict [(''x'', PyInt 10), (''y'', PyInt 40), (''w'', PyInt 50), (''h'', PyInt 60)]),
       (''dominant_emotion'', PyStr ''happy'')],
      [(''dominant_emotion'', PyStr ''angry'')],
      [(''region'', PyDict [(''x'', PyInt 1), (''y'', PyInt 2), (''w'', PyInt 3), (''h'', PyInt 4)]),
       (''dominant_emotion'', PyStr '''')],
      [(''region'', PyNone), (''dominant_emotion'', PyNone)],
      [(''region'', PyDict [(''x'', PyInt 100), (''y'', PyInt 100), (''w'', PyInt 5), (''h'', PyInt 5)]),
       (''dominant_emotion'', PyStr ''sad'')]]"
  have d: "\<forall>f\<in>set ?faces. detection f"
    by (simp add: detection_def dict_get_def int_at_def)
  from overlay_skips_incomplete_detections [OF d, of ?cfg "\<lparr>image = [[1::nat]], drawn = []\<rparr>"]
  have "overlay ?cfg ?faces \<lparr>image = [[1::nat]], drawn = []\<rparr> =
          Inr (spec_render ?cfg ?faces \<lparr>image = [[1::nat]], drawn = []\<rparr>)"
    by (rule conjunct1)
  then show ?thesis
    by (simp add: dict_get_def int_at_def spec_render_def spec_ops_def face_ops_def
          green_def black_def capitalize_happy capitalize_sad del: capitalize.simps)
qed

section \<open>Process entry\<close>

text \<open>
  C6. When the first open of the camera fails (the capture is not opened, or opening
  raised), \<^verbatim>\<open>main\<close> prints the tip naming other device indices, ends on the message that
  it is exiting and never starts the server; when it succeeds, the last thing \<^verbatim>\<open>main\<close>
  does is to run the server, once, on host \<^verbatim>\<open>0.0.0.0\<close> and port 5001.
\<close>

theorem main_startup:
  "(r \<noteq> IsOpened \<longrightarrow>
      Print ''Tip: Try changing CAMERA_INDEX to 0, 1, or 2.'' \<in> set (main cfg r) \<and>
      last (main cfg r) = Print ''Failed to initialize camera. Exiting.'' \<and>
      served (main cfg r) = []) \<and>
   (r = IsOpened \<longrightarrow>
      last (main cfg r) = AppRun ''0.0.0.0'' 5001 \<and>
      served (main cfg r) = [(''0.0.0.0'', 5001)])"
  by (cases r) (simp_all add: main_def initialize_camera_def tip_def)

theorem main_startup_witness:
  "served (main (script_env (\<lambda>s. (0, 0))) NotOpened :: nat event list) = [] \<and>
   Print ''Error initializing camera: Cannot open webcam at index 1.''
     \<in> set (main (script_env (\<lambda>s. (0, 0))) NotOpened :: nat event list) \<and>
   served (main (script_env (\<lambda>s. (0, 0))) IsOpened :: nat event list) = [(''0.0.0.0'', 5001)]"
proof -
  have "str_int 1 = ''1''" by code_simp
  then show ?thesis
    using main_startup [of NotOpened "script_env (\<lambda>s. (0, 0))"]
      main_startup [of IsOpened "script_env (\<lambda>s. (0, 0))"]
    by (simp add: main_def initialize_camera_def script_env_def)
qed

section \<open>The multipart stream\<close>

text \<open>
  C7. Every part yielded by \<^verbatim>\<open>generate_frames\<close> is the marker \<^verbatim>\<open>--frame\<close>, CRLF, the header
  \<^verbatim>\<open>Content-Type: image/jpeg\<close>, CRLF, CRLF, the bytes \<^verbatim>\<open>cv2.imencode\<close> returned in one of the
  passes, CRLF, in that order.
\<close>

theorem emitted_part_format:
  assumes "generate_frames cfg cap0 r ticks = (pre, log, res)"
    and "p \<in> set (yielded (pre @ concat log))"
  shows "\<exists>t\<in>set ticks. \<exists>frame_bytes.
           imencode_ret t = Some frame_bytes \<and>
           p = ''--frame'' @ [CHR 0x0D, CHR 0x0A] @
               ''Content-Type: image/jpeg'' @ [CHR 0x0D, CHR 0x0A] @ [CHR 0x0D, CHR 0x0A] @
               frame_bytes @ [CHR 0x0D, CHR 0x0A]"
proof -
  have pre: "yielded pre = []"
    using assms(1) initialize_camera_quiet(1) [of cfg r]
    by (auto simp: generate_frames_def Let_def case_prod_beta split: option.splits)
  have "\<exists>s. log = fst (generate_loop cfg s ticks) \<or> log = []"
    using assms(1)
    by (auto simp: generate_frames_def run_loop_def Let_def case_prod_beta
             split: option.splits prod.splits sum.splits)
  then obtain s where "log = fst (generate_loop cfg s ticks) \<or> log = []" by blast
  moreover from assms(2) pre have "p \<in> set (yielded (concat log))"
    by (simp add: yielded_append)
  ultimately have "\<exists>t\<in>set ticks. \<exists>b. imencode_ret t = Some b \<and> p = part b"
    using generate_loop_yielded [of cfg s ticks log "snd (generate_loop cfg s ticks)" p]
    by auto
  then show ?thesis by (simp add: part_def CRLF_def)
qed

theorem emitted_part_format_witness:
  "yielded (concat (fst (snd (generate_frames (script_env (\<lambda>s. (0, 0))) None IsOpened
      [\<lparr>read_ret = Some [[1::nat, 2]], open_ret = IsOpened, analyze_ret = Inr [],
        imencode_ret = Some ''JPEG''\<rparr>])))) =
   [''--frame'' @ [CHR 0x0D, CHR 0x0A] @ ''Content-Type: image/jpeg'' @
    [CHR 0x0D, CHR 0x0A, CHR 0x0D, CHR 0x0A] @ ''JPEG'' @ [CHR 0x0D, CHR 0x0A]]"
  using emitted_part_format [of "script_env (\<lambda>s. (0, 0))" None IsOpened
      "[\<lparr>read_ret = Some [[1::nat, 2]], open_ret = IsOpened, analyze_ret = Inr [],
        imencode_ret = Some ''JPEG''\<rparr>]", OF prod_cases3]
  by (simp add: generate_frames_def run_loop_def run_defs script_env_def part_def CRLF_def Let_def)

text \<open>
  C8. When \<^verbatim>\<open>cv2.imencode\<close> fails in pass \<open>i\<close>, that pass yields nothing, the generator goes
  on to the next tick (or waits for it), and every pass of the run in which the encoder
  succeeds yields exactly one part, with the delimiters around the encoded bytes.
\<close>

theorem encode_failure_drops_only_that_frame:
  assumes run: "generate_loop cfg s ticks = (log, r)"
    and i: "i < length log"
    and called: "Imencode fr \<in> set (log ! i)"
    and failed: "imencode_ret (ticks ! i) = None"
  shows "yielded (log ! i) = [] \<and>
         (Suc i < length ticks \<longrightarrow> Suc i < length log) \<and>
         (Suc i = length ticks \<longrightarrow> (\<exists>s'. r = Inr s')) \<and>
         (\<forall>j<length log. \<forall>fr' frame_bytes.
            Imencode fr' \<in> set (log ! j) \<longrightarrow> imencode_ret (ticks ! j) = Some frame_bytes \<longrightarrow>
            yielded (log ! j) =
              [''--frame'' @ [CHR 0x0D, CHR 0x0A] @
               ''Content-Type: image/jpeg'' @ [CHR 0x0D, CHR 0x0A] @ [CHR 0x0D, CHR 0x0A] @
               frame_bytes @ [CHR 0x0D, CHR 0x0A]])"
proof -
  have pass: "\<And>j. j < length log \<Longrightarrow> \<exists>sj. log ! j = fst (loop_body cfg sj (ticks ! j))"
    using generate_loop_nth [OF run] by blast
  from called have enc: "encoded (log ! i) \<noteq> []"
    using set_encoded [of "log ! i"] by auto
  from pass [OF i] obtain si where si: "log ! i = fst (loop_body cfg si (ticks ! i))" by blast
  from enc failed have y: "yielded (log ! i) = []"
    unfolding si by (simp add: yielded_loop_body)
  have len: "length log \<le> length ticks"
    using generate_loop_length [of cfg s ticks] run by simp
  have cont: "(Suc i < length ticks \<longrightarrow> Suc i < length log) \<and>
              (Suc i = length ticks \<longrightarrow> (\<exists>s'. r = Inr s'))"
  proof (cases r)
    case (Inr s')
    with run have "length log = length ticks" by (simp add: generate_loop_Inr_length)
    with Inr show ?thesis by simp
  next
    case (Inl e)
    with run generate_loop_Inl_last [of cfg s ticks log e] obtain sl where
      sl: "loop_body cfg sl (ticks ! (length log - 1)) = (last log, Inl e)" and ne: "log \<noteq> []"
      by blast
    have "Suc i \<noteq> length log"
    proof
      assume eq: "Suc i = length log"
      then have li: "length log - 1 = i" by simp
      with ne have "last log = log ! i" by (simp add: last_conv_nth)
      with sl li have sl': "loop_body cfg sl (ticks ! i) = (log ! i, Inl e)" by simp
      with enc have "encoded (fst (loop_body cfg sl (ticks ! i))) \<noteq> []" by simp
      from encoded_loop_body_continues [OF this] sl' show False by simp
    qed
    with i len show ?thesis by simp
  qed
  have later: "\<forall>j<length log. \<forall>fr' frame_bytes.
            Imencode fr' \<in> set (log ! j) \<longrightarrow> imencode_ret (ticks ! j) = Some frame_bytes \<longrightarrow>
            yielded (log ! j) =
              [''--frame'' @ [CHR 0x0D, CHR 0x0A] @
               ''Content-Type: image/jpeg'' @ [CHR 0x0D, CHR 0x0A] @ [CHR 0x0D, CHR 0x0A] @
               frame_bytes @ [CHR 0x0D, CHR 0x0A]]"
  proof (intro allI impI)
    fix j fr' frame_bytes
    assume j: "j < length log" and c: "Imencode fr' \<in> set (log ! j)"
      and ok: "imencode_ret (ticks ! j) = Some frame_bytes"
    from pass [OF j] obtain sj where sj: "log ! j = fst (loop_body cfg sj (ticks ! j))" by blast
    from c have "encoded (log ! j) \<noteq> []" using set_encoded [of "log ! j"] by auto
    with ok show "yielded (log ! j) =
              [''--frame'' @ [CHR 0x0D, CHR 0x0A] @
               ''Content-Type: image/jpeg'' @ [CHR 0x0D, CHR 0x0A] @ [CHR 0x0D, CHR 0x0A] @
               frame_bytes @ [CHR 0x0D, CHR 0x0A]]"
      unfolding sj by (simp add: yielded_loop_body part_def CRLF_def)
  qed
  from y cont later show ?thesis by blast
qed

theorem encode_failure_drops_only_that_frame_witness:
  "map yielded (fst (generate_loop (script_env (\<lambda>s. (0, 0))) (start (VideoCapture 1))
      [\<lparr>read_ret = Some [[1::nat, 2]], open_ret = IsOpened, analyze_ret = Inr [],
        imencode_ret = None\<rparr>,
       \<lparr>read_ret = Some [[3, 4]], open_ret = IsOpened, analyze_ret = Inr [],
        imencode_ret = Some ''JPEG''\<rparr>]))
   = [[], [''--frame'' @ [CHR 0x0D, CHR 0x0A] @ ''Content-Type: image/jpeg'' @
           [CHR 0x0D, CHR 0x0A, CHR 0x0D, CHR 0x0A] @ ''JPEG'' @ [CHR 0x0D, CHR 0x0A]]]"
  using encode_failure_drops_only_that_frame [of "script_env (\<lambda>s. (0, 0))" "start (VideoCapture 1)"
      "[\<lparr>read_ret = Some [[1::nat, 2]], open_ret = IsOpened, analyze_ret = Inr [],
        imencode_ret = None\<rparr>,
       \<lparr>read_ret = Some [[3, 4]], open_ret = IsOpened, analyze_ret = Inr [],
        imencode_ret = Some ''JPEG''\<rparr>]" _ _ 0 "\<lparr>image = [[2, 1]], drawn = []\<rparr>",
      OF surjective_pairing]
  by (simp add: run_defs script_env_def part_def CRLF_def Let_def)

section \<open>A detector that raises\<close>

text \<open>
  C3. In a pass that calls the detector and in which the call raises, the exception does
  not leave the \<^verbatim>\<open>try\<close>: the cache is empty afterwards, the counter has advanced and the loop
  goes on with the remaining ticks. The flipped frame is handed to the encoder with
  nothing drawn on it and the part made of the encoder's bytes is yielded. The pass is,
  event for event and in its resulting state, the pass of a detector that found no face,
  so the exception takes nothing away from what is emitted.
\<close>

theorem inference_error_degrades_to_empty:
  assumes "cap s = Some c" and "read_ret t = Some raw"
    and "FRAME_SKIP cfg \<noteq> 0" and "frame_count s mod FRAME_SKIP cfg = 0"
    and "analyze_ret t = Inl e"
  shows "generate_loop cfg s (t # ts) =
           (([Analyze (cv2_flip raw 1) (DETECTOR_BACKEND cfg),
              Imencode \<lparr>image = cv2_flip raw 1, drawn = []\<rparr>] @
             (case imencode_ret t of
                None \<Rightarrow> []
              | Some frame_bytes \<Rightarrow> [Yield (part frame_bytes)])) #
            fst (generate_loop cfg
                  (s\<lparr>frame_count := frame_count s + 1, last_detected_faces := []\<rparr>) ts),
            snd (generate_loop cfg
                  (s\<lparr>frame_count := frame_count s + 1, last_detected_faces := []\<rparr>) ts)) \<and>
         (\<forall>frame_bytes. imencode_ret t = Some frame_bytes \<longrightarrow>
            yielded (fst (loop_body cfg s t)) =
              [''--frame'' @ [CHR 0x0D, CHR 0x0A] @
               ''Content-Type: image/jpeg'' @ [CHR 0x0D, CHR 0x0A] @ [CHR 0x0D, CHR 0x0A] @
               frame_bytes @ [CHR 0x0D, CHR 0x0A]]) \<and>
         loop_body cfg s t = loop_body cfg s (t\<lparr>analyze_ret := Inr []\<rparr>)"
  using assms
  by (simp add: loop_body_def process_frame_def throttle_def attempt_def render_and_emit_def
        overlay_def encode_and_yield_def captured_def part_def CRLF_def Let_def case_prod_beta)

theorem inference_error_degrades_to_empty_witness:
  "generate_loop (script_env (\<lambda>s. (0, 0))) (start (VideoCapture 1))
     [\<lparr>read_ret = Some [[1::nat, 2]], open_ret = IsOpened, analyze_ret = Inl ''model failure'',
       imencode_ret = Some ''JPEG''\<rparr>]
   = ([[Analyze [[2, 1]] ''opencv'', Imencode \<lparr>image = [[2, 1]], drawn = []\<rparr>,
        Yield (''--frame'' @ [CHR 0x0D, CHR 0x0A] @ ''Content-Type: image/jpeg'' @
               [CHR 0x0D, CHR 0x0A, CHR 0x0D, CHR 0x0A] @ ''JPEG'' @ [CHR 0x0D, CHR 0x0A])]],
      Inr \<lparr>cap = Some (VideoCapture 1), frame_count = 1, last_detected_faces = []\<rparr>)"
  using inference_error_degrades_to_empty [of "start (VideoCapture 1)" "VideoCapture 1"
      "\<lparr>read_ret = Some [[1::nat, 2]], open_ret = IsOpened, analyze_ret = Inl ''model failure'',
        imencode_ret = Some ''JPEG''\<rparr>" "[[1, 2]]" "script_env (\<lambda>s. (0, 0))" "''model failure''" "[]",
      THEN conjunct1]
  by (simp add: start_def script_env_def cv2_flip_def part_def CRLF_def)


section \<open>Losing the camera\<close>

text \<open>
  C5. The claim is that the loop retries for ever across failed reopen attempts. In the
  code a failed read followed by a failed \<^verbatim>\<open>initialize_camera\<close> leaves \<^verbatim>\<open>cap = None\<close>, and the
  next pass calls \<^verbatim>\<open>cap.read()\<close> on it: the generator ends with AttributeError after the
  messages of the one reopen attempt, whatever the later ticks hold.
\<close>

theorem failed_reopen_raises_on_next_read:
  "generate_frames (script_env gts) (Some (VideoCapture 1)) r0
     (\<lparr>read_ret = None, open_ret = NotOpened, analyze_ret = a, imencode_ret = b\<rparr> # t # ts)
   = ([],
      [[Print ''Error: Failed to grab frame. Re-initializing camera...'',
        OpenCamera 1,
        Print ''Error initializing camera: Cannot open webcam at index 1.'',
        Print ''Tip: Try changing CAMERA_INDEX to 0, 1, or 2.'',
        Sleep 1],
       []],
      Raised AttributeError)"
  by (simp add: generate_frames_def run_loop_def start_def loop_body_def initialize_camera_def
        script_env_def tip_def str_int_1)


section \<open>The mirror view\<close>

text \<open>
  C10. In a pass whose read succeeded, every image handed to the detector is the frame
  with each row reversed, and so is the image of every frame handed to the encoder; the
  detector is called on it exactly when the counter is a multiple of \<^verbatim>\<open>FRAME_SKIP\<close>, and a
  pass that does not raise encodes exactly one frame.
\<close>

theorem frame_mirrored_before_analysis_and_overlay:
  assumes "loop_body cfg s t = (evs, r)" and "read_ret t = Some raw"
  shows "(\<forall>img\<in>set (analyzed evs). img = map rev raw) \<and>
         (\<forall>fr\<in>set (encoded evs). image fr = map rev raw) \<and>
         (cap s \<noteq> None \<and> FRAME_SKIP cfg \<noteq> 0 \<longrightarrow>
            analyzed evs = (if frame_count s mod FRAME_SKIP cfg = 0 then [map rev raw] else [])) \<and>
         ((\<exists>s'. r = Inr s') \<longrightarrow> length (encoded evs) = 1)"
proof -
  have flip: "cv2_flip raw 1 = map rev raw" by (simp add: cv2_flip_def)
  from loop_body_cases [OF assms(1)] assms(2) consider
      (dead) "evs = []" "\<exists>e. r = Inl e" "cap s = None \<or> FRAME_SKIP cfg = 0"
    | (live) called faces where
        "cap s \<noteq> None" "FRAME_SKIP cfg \<noteq> 0"
        "throttle cfg s t (cv2_flip raw 1) = Inr (called, faces)"
        "(\<exists>e. evs = called \<and> r = Inl e) \<or>
         (\<exists>fr. overlay cfg faces (captured (cv2_flip raw 1)) = Inr fr \<and>
            evs = called @ Imencode fr #
                    (case imencode_ret t of None \<Rightarrow> [] | Some b \<Rightarrow> [Yield (part b)]))"
    by (elim disjE conjE exE) auto
  then show ?thesis
  proof cases
    case dead
    then show ?thesis by auto
  next
    case live
    from live(2,3) have called:
      "called = (if frame_count s mod FRAME_SKIP cfg = 0
                 then [Analyze (map rev raw) (DETECTOR_BACKEND cfg)] else [])"
      by (auto simp: throttle_def flip split: if_splits)
    from live(4) show ?thesis
    proof (elim disjE exE conjE)
      fix e assume "evs = called" "r = Inl e"
      with called live(1,2) show ?thesis by simp
    next
      fix fr
      assume ov: "overlay cfg faces (captured (cv2_flip raw 1)) = Inr fr"
        and evs: "evs = called @ Imencode fr #
                    (case imencode_ret t of None \<Rightarrow> [] | Some b \<Rightarrow> [Yield (part b)])"
      from overlay_image [OF ov] have "image fr = map rev raw"
        by (simp add: captured_def flip)
      with called evs show ?thesis
        by (simp add: analyzed_append encoded_append split: option.splits)
    qed
  qed
qed

theorem frame_mirrored_before_analysis_and_overlay_witness:
  "analyzed (fst (loop_body (script_env (\<lambda>s. (0, 0))) (start (VideoCapture 1))
     \<lparr>read_ret = Some [[1::nat, 2, 3], [4, 5, 6]], open_ret = IsOpened, analyze_ret = Inr [],
       imencode_ret = Some ''JPEG''\<rparr>)) = [[[3, 2, 1], [6, 5, 4]]] \<and>
   map image (encoded (fst (loop_body (script_env (\<lambda>s. (0, 0))) (start (VideoCapture 1))
     \<lparr>read_ret = Some [[1::nat, 2, 3], [4, 5, 6]], open_ret = IsOpened, analyze_ret = Inr [],
       imencode_ret = Some ''JPEG''\<rparr>))) = [[[3, 2, 1], [6, 5, 4]]]"
  using frame_mirrored_before_analysis_and_overlay [of "script_env (\<lambda>s. (0, 0))"
      "start (VideoCapture 1)"
      "\<lparr>read_ret = Some [[1::nat, 2, 3], [4, 5, 6]], open_ret = IsOpened, analyze_ret = Inr [],
        imencode_ret = Some ''JPEG''\<rparr>" _ _ "[[1, 2, 3], [4, 5, 6]]", OF surjective_pairing]
  by (simp add: run_defs script_env_def Let_def)

section \<open>End-to-end scenario\<close>

text \<open>
  C9. With \<^verbatim>\<open>FRAME_SKIP = 10\<close>, ten ticks that all read the same frame, and a detector that
  returns on the first of them one face at region (10, 10, 50, 50) with dominant emotion
  \<^verbatim>\<open>happy\<close>: the detector is called once, on the first frame, the generator does not
  raise, and each of the ten frames handed to the encoder is the mirrored frame with the
  same box from (10, 10) to (60, 60), the same label background and the label
  \<^verbatim>\<open>Emotion: Happy\<close>.
\<close>

theorem scenario_happy_face_sticks_for_ten_frames:
  assumes skip: "FRAME_SKIP cfg = 10"
    and len: "length ticks = 10"
    and same: "\<forall>t\<in>set ticks. read_ret t = Some img"
    and face: "analyze_ret (ticks ! 0) =
                 Inr [[(''region'', PyDict [(''x'', PyInt 10), (''y'', PyInt 10),
                                            (''w'', PyInt 50), (''h'', PyInt 50)]),
                       (''dominant_emotion'', PyStr ''happy'')]]"
    and size: "getTextSize cfg ''Emotion: Happy'' = (text_w, text_h)"
  shows "map encoded (fst (generate_loop cfg (start c) ticks)) =
           replicate 10
             [\<lparr>image = map rev img,
               drawn = [Rectangle (10, 10) (60, 60) (0, 255, 0) 2,
                        Rectangle (10, 10 - text_h - 10) (10 + text_w, 5) (0, 255, 0) (- 1),
                        PutText ''Emotion: Happy'' (10, 0) (0, 0, 0) 2]\<rparr>] \<and>
         map analyzed (fst (generate_loop cfg (start c) ticks)) =
           [map rev img] # replicate 9 [] \<and>
         (\<exists>s. snd (generate_loop cfg (start c) ticks) = Inr s)"
proof -
  from len obtain t0 t1 t2 t3 t4 t5 t6 t7 t8 t9 where
    ticks: "ticks = [t0, t1, t2, t3, t4, t5, t6, t7, t8, t9]"
    by (rule list_of_length_10)
  from same ticks have reads:
    "read_ret t0 = Some img" "read_ret t1 = Some img" "read_ret t2 = Some img"
    "read_ret t3 = Some img" "read_ret t4 = Some img" "read_ret t5 = Some img"
    "read_ret t6 = Some img" "read_ret t7 = Some img" "read_ret t8 = Some img"
    "read_ret t9 = Some img"
    by simp_all
  from face ticks have a0: "analyze_ret t0 =
                 Inr [[(''region'', PyDict [(''x'', PyInt 10), (''y'', PyInt 10),
                                            (''w'', PyInt 50), (''h'', PyInt 50)]),
                       (''dominant_emotion'', PyStr ''happy'')]]"
    by simp
  show ?thesis
    unfolding ticks
    by (simp add: run_defs draw_defs Let_def capitalize_happy skip reads a0 size
          numeral_eq_Suc [of "num.Bit1 (num.Bit0 (num.Bit0 num.One))"]
          eval_nat_numeral yield_tail_quiet
          del: capitalize.simps)
qed

theorem scenario_happy_face_sticks_for_ten_frames_witness:
  "map encoded (fst (generate_loop (script_env (\<lambda>s. (140, 20))) (start (VideoCapture 1))
     (\<lparr>read_ret = Some [[1::nat, 2]], open_ret = IsOpened,
       analyze_ret = Inr [[(''region'', PyDict [(''x'', PyInt 10), (''y'', PyInt 10),
                                                (''w'', PyInt 50), (''h'', PyInt 50)]),
                           (''dominant_emotion'', PyStr ''happy'')]],
       imencode_ret = Some ''JPEG''\<rparr> #
      replicate 9 \<lparr>read_ret = Some [[1, 2]], open_ret = IsOpened,
                    analyze_ret = Inl ''not called'', imencode_ret = Some ''JPEG''\<rparr>)))
   = replicate 10
       [\<lparr>image = [[2, 1]],
         drawn = [Rectangle (10, 10) (60, 60) (0, 255, 0) 2,
                  Rectangle (10, - 20) (150, 5) (0, 255, 0) (- 1),
                  PutText ''Emotion: Happy'' (10, 0) (0, 0, 0) 2]\<rparr>]"
proof -
  let ?ticks =
    "\<lparr>read_ret = Some [[1::nat, 2]], open_ret = IsOpened,
       analyze_ret = Inr [[(''region'', PyDict [(''x'', PyInt 10), (''y'', PyInt 10),
                                                (''w'', PyInt 50), (''h'', PyInt 50)]),
                           (''dominant_emotion'', PyStr ''happy'')]],
       imencode_ret = Some ''JPEG''\<rparr> #
      replicate 9 \<lparr>read_ret = Some [[1, 2]], open_ret = IsOpened,
                    analyze_ret = Inl ''not called'', imencode_ret = Some ''JPEG''\<rparr>"
  have "map encoded (fst (generate_loop (script_env (\<lambda>s. (140, 20))) (start (VideoCapture 1))
          ?ticks))
        = replicate 10
            [\<lparr>image = map rev [[1, 2]],
              drawn = [Rectangle (10, 10) (60, 60) (0, 255, 0) 2,
                       Rectangle (10, 10 - 20 - 10) (10 + 140, 5) (0, 255, 0) (- 1),
                       PutText ''Emotion: Happy'' (10, 0) (0, 0, 0) 2]\<rparr>]"
    by (rule scenario_happy_face_sticks_for_ten_frames [THEN conjunct1])
       (simp_all add: script_env_def)
  then show ?thesis by simp
qed

end
